theory Spec2Isabelle
  imports Complex_Main
begin

section \<open>Python values used by the generator\<close>

text \<open>
  The generator \<^verbatim>\<open>examples/2D_detonation/ic2d.py\<close> is a script: it reads a reference
  dataset through \<^verbatim>\<open>mfc.viz.Case\<close> and writes two Fortran fragments. Python integers
  are \<open>int\<close>, lengths are \<open>nat\<close>, text is \<open>string\<close>.
\<close>

text \<open>Python's \<^verbatim>\<open>str\<close> on a non-negative integer: its decimal digits.\<close>

fun str_nat :: "nat \<Rightarrow> string" where
  "str_nat n = (if n < 10 then [''0123456789'' ! n]
                else str_nat (n div 10) @ [''0123456789'' ! (n mod 10)])"

declare str_nat.simps [simp del]

text \<open>Python's \<^verbatim>\<open>str\<close> on an integer, as an f-string renders \<^verbatim>\<open>{var_wrt}\<close> and \<^verbatim>\<open>{nx - 1}\<close>.\<close>

definition str_int :: "int \<Rightarrow> string" where
  "str_int i = (if i < 0 then ''-'' @ str_nat (nat (- i)) else str_nat (nat i))"

text \<open>
  An entry of the list \<^verbatim>\<open>elems\<close>: either a string \<^verbatim>\<open>str(x)\<close> (line 28) or the float
  literal \<^verbatim>\<open>0.0\<close> (line 30). \<open>fmt\<close> is what \<^verbatim>\<open>f"{element}"\<close> renders.
\<close>

datatype pyval = PyStr string | PyFloat0

fun fmt :: "pyval \<Rightarrow> string" where
  "fmt (PyStr s) = s"
| "fmt PyFloat0 = ''0.0''"

section \<open>The collaborator and the errors of a run\<close>

text \<open>
  What a run can raise. The exception classes of the collaborator are not part of the
  script, so the errors are named by what is missing.
\<close>

datatype error =
    LoadError string
  | MissingSnapshot int
  | MissingField int string
  | NameError string

text \<open>
  The class \<^verbatim>\<open>mfc.viz.Case\<close> is outside the script; it is a parameter of the model.
  \<open>'c\<close> is the state of the case object, \<open>'a\<close> the type of one sample.
  \<open>load_variable\<close> may change the object or raise; \<open>get_data\<close> gives the snapshots,
  indexed by step and then by field name; \<open>str_of\<close> is Python's \<^verbatim>\<open>str\<close> on a sample.
\<close>

record ('c, 'a) viz =
  load_variable :: "string \<Rightarrow> string \<Rightarrow> 'c \<Rightarrow> error + 'c"
  get_data :: "'c \<Rightarrow> int \<rightharpoonup> (string \<rightharpoonup> 'a list)"
  str_of :: "'a \<Rightarrow> string"

text \<open>\<^verbatim>\<open>case.get_data()[step][name]\<close>, raising when the step or the field is absent.\<close>

definition field_at :: "('c, 'a) viz \<Rightarrow> 'c \<Rightarrow> int \<Rightarrow> string \<Rightarrow> error + 'a list" where
  "field_at ops c step name =
     (case get_data ops c step of
        None \<Rightarrow> Inl (MissingSnapshot step)
      | Some snap \<Rightarrow>
          (case snap name of
             None \<Rightarrow> Inl (MissingField step name)
           | Some xs \<Rightarrow> Inr xs))"

section \<open>Constants and ranges\<close>

definition num_eqns :: int where "num_eqns = 15"
definition num_dims :: int where "num_dims = 2"

text \<open>\<^verbatim>\<open>incrange(a, b)\<close> is \<^verbatim>\<open>range(a, b+1)\<close>; \<open>py_range a b\<close> is \<^verbatim>\<open>range(a, b)\<close>.\<close>

definition py_range :: "int \<Rightarrow> int \<Rightarrow> int list" where
  "py_range a b = [a..b - 1]"

definition incrange :: "int \<Rightarrow> int \<Rightarrow> int list" where
  "incrange a b = py_range a (b + 1)"

text \<open>Line 22: the source id loaded for destination id \<open>var_wrt\<close>.\<close>

definition var_init :: "int \<Rightarrow> int" where
  "var_init var_wrt = (if var_wrt < 3 then var_wrt else var_wrt - 1)"

text \<open>The snapshot the sample values are taken from (line 28).\<close>

definition probe_index :: int where "probe_index = 14694"

section \<open>The declaration pass\<close>

text \<open>
  Lines 22 to 30: load the source field, take \<^verbatim>\<open>nx\<close> from snapshot 0, build \<^verbatim>\<open>elems\<close>.
  The result is the case object after the load, \<^verbatim>\<open>nx\<close> and \<^verbatim>\<open>elems\<close>.
\<close>

definition profile :: "('c, 'a) viz \<Rightarrow> int \<Rightarrow> 'c \<Rightarrow> error + ('c \<times> nat \<times> pyval list)" where
  "profile ops var_wrt c =
     (let name = str_int (var_init var_wrt) in
      case load_variable ops name (''prim.'' @ name) c of
        Inl e \<Rightarrow> Inl e
      | Inr c' \<Rightarrow>
          (case field_at ops c' 0 name of
             Inl e \<Rightarrow> Inl e
           | Inr xs0 \<Rightarrow>
               (let nx = length xs0 in
                if var_wrt \<noteq> 3 then
                  (case field_at ops c' probe_index name of
                     Inl e \<Rightarrow> Inl e
                   | Inr xs \<Rightarrow> Inr (c', nx, map (\<lambda>x. PyStr (str_of ops x)) xs))
                else Inr (c', nx, replicate nx PyFloat0))))"

text \<open>
  Lines 33 to 37: the loop over \<^verbatim>\<open>enumerate(elems)\<close>. \<open>n\<close> is \<^verbatim>\<open>len(elems)\<close>, \<open>i\<close> the
  running index and \<open>out\<close> the text written to the file so far.
\<close>

fun write_elems :: "nat \<Rightarrow> nat \<Rightarrow> pyval list \<Rightarrow> string \<Rightarrow> string" where
  "write_elems n i [] out = out"
| "write_elems n i (element # rest) out =
     write_elems n (Suc i) rest
       (if int i = int n - 1 then out @ fmt element @ '' &\<newline>''
        else out @ fmt element @ '', &\<newline>'')"

text \<open>Lines 32 to 38: the declaration of one array, appended to the file.\<close>

definition emit_decl :: "int \<Rightarrow> nat \<Rightarrow> pyval list \<Rightarrow> string \<Rightarrow> string" where
  "emit_decl var_wrt nx elems out =
     write_elems (length elems) 0 elems
       (out @ ''real(kind(0d0)) :: var'' @ str_int var_wrt @ ''(0:'' @ str_int (int nx - 1)
            @ '') = [ &\<newline>'')
     @ '']\<newline>''"

text \<open>
  The state the script carries across the iterations: the case object, the module-level
  variable \<^verbatim>\<open>nx\<close> (unbound before the first iteration) and the text written so far to
  the open file.
\<close>

record 'c st =
  case_obj :: 'c
  nx_var :: "nat option"
  ftext :: string

text \<open>One iteration of the loop of line 21. Everything that can raise precedes the first write.\<close>

definition decl_body :: "('c, 'a) viz \<Rightarrow> int \<Rightarrow> 'c st \<Rightarrow> error + 'c st" where
  "decl_body ops var_wrt s =
     (case profile ops var_wrt (case_obj s) of
        Inl e \<Rightarrow> Inl e
      | Inr (c', nx, elems) \<Rightarrow>
          Inr \<lparr>case_obj = c', nx_var = Some nx, ftext = emit_decl var_wrt nx elems (ftext s)\<rparr>)"

text \<open>
  The loop of line 21. An exception leaves the loop with the state of the iteration it
  was raised in: the file holds what the earlier iterations wrote.
\<close>

fun decl_loop :: "('c, 'a) viz \<Rightarrow> int list \<Rightarrow> 'c st \<Rightarrow> 'c st \<times> error option" where
  "decl_loop ops [] s = (s, None)"
| "decl_loop ops (var_wrt # rest) s =
     (case decl_body ops var_wrt s of
        Inl e \<Rightarrow> (s, Some e)
      | Inr s' \<Rightarrow> decl_loop ops rest s')"

section \<open>The branch pass\<close>

text \<open>Line 44: one assignment, for one destination id.\<close>

definition assign_line :: "int \<Rightarrow> nat \<Rightarrow> string" where
  "assign_line var_wrt nx =
     ''    q_prim_vf('' @ str_int var_wrt @ '')%sf(i, j, 0) = var'' @ str_int var_wrt
       @ ''(min(i_offset+i, '' @ str_int (int nx - 1) @ ''))\<newline>''"

text \<open>The loop of line 43.\<close>

fun def_loop :: "int list \<Rightarrow> nat \<Rightarrow> string \<Rightarrow> string" where
  "def_loop [] nx out = out"
| "def_loop (var_wrt # rest) nx out = def_loop rest nx (out @ assign_line var_wrt nx)"

text \<open>Line 42.\<close>

definition offset_line :: "nat \<Rightarrow> string" where
  "offset_line nx = ''    i_offset = int(x_cc(0)/0.12d0*'' @ str_int (int nx - 1) @ '')\<newline>''"

section \<open>The script\<close>

text \<open>
  The parsed command line (lines 5 to 10). The files are a map from path to content;
  opening a path for writing creates it empty or truncates it, and a write appends.
  Writes are taken to succeed.
\<close>

record args =
  scale :: real

type_synonym files = "string \<rightharpoonup> string"

definition decl_path :: string where
  "decl_path = ''examples/2D_detonation/ic_decl.f90''"

definition def_path :: string where
  "def_path = ''examples/2D_detonation/ic_def.f90''"

text \<open>
  Lines 12 to 44. \<open>c\<close> is the case object that line 12 constructs. The result is the
  files after the run and the exception that ended it, if any.
\<close>

definition main :: "args \<Rightarrow> ('c, 'a) viz \<Rightarrow> 'c \<Rightarrow> files \<Rightarrow> files \<times> error option" where
  "main a ops c fs =
     (case decl_loop ops (incrange 1 (num_eqns + num_dims - 1))
             \<lparr>case_obj = c, nx_var = None, ftext = ''integer :: i_offset\<newline>''\<rparr> of
        (s, Some e) \<Rightarrow> (fs(decl_path \<mapsto> ftext s), Some e)
      | (s, None) \<Rightarrow>
          (let fs' = fs(decl_path \<mapsto> ftext s) in
           case nx_var s of
             None \<Rightarrow> (fs'(def_path \<mapsto> ''case (666)\<newline>''), Some (NameError ''nx''))
           | Some nx \<Rightarrow>
               (fs'(def_path \<mapsto>
                  def_loop (py_range 1 (num_eqns + num_dims - 1)) nx
                    (''case (666)\<newline>'' @ offset_line nx)), None)))"

section \<open>The emitted Fortran, read as expressions\<close>






text \<open>
  The argument of \<^verbatim>\<open>int( )\<close> in line 42 is a real expression of the solver, in the
  coordinate \<^verbatim>\<open>x_cc(0)\<close> of cell 0, the literal \<^verbatim>\<open>0.12d0\<close> and an integer. Its value
  is taken over the reals, without the rounding of double precision. \<open>x_scale\<close> is the
  value of the literal, and \<open>L\<close> the length of line 32 of \<^verbatim>\<open>case.py\<close>.
\<close>

datatype rexpr = XCC0 | Scale | RInt int | RDiv rexpr rexpr | RMul rexpr rexpr


definition x_scale :: real where "x_scale = 12 / 100"


fun eval_r :: "real \<Rightarrow> rexpr \<Rightarrow> real" where
  "eval_r x XCC0 = x"
| "eval_r x Scale = x_scale"
| "eval_r x (RInt k) = real_of_int k"
| "eval_r x (RDiv a b) = eval_r x a / eval_r x b"
| "eval_r x (RMul a b) = eval_r x a * eval_r x b"

definition offset_arg :: "nat \<Rightarrow> rexpr" where
  "offset_arg nx = RMul (RDiv XCC0 Scale) (RInt (int nx - 1))"

text \<open>
  Fortran's \<^verbatim>\<open>int\<close> on a real number truncates toward zero. \<open>i_offset\<close> is the value
  line 42 assigns when cell 0 is at \<open>x\<close>.
\<close>

definition fortran_int :: "real \<Rightarrow> int" where
  "fortran_int y = (if 0 \<le> y then \<lfloor>y\<rfloor> else \<lceil>y\<rceil>)"

definition i_offset :: "real \<Rightarrow> nat \<Rightarrow> int" where
  "i_offset x nx = fortran_int (eval_r x (offset_arg nx))"

section \<open>The artifacts in closed form\<close>

text \<open>
  The text of a list of literals: every element is followed by a comma and the
  continuation marker, the last one by the marker alone.
\<close>

fun elem_lines :: "string list \<Rightarrow> string" where
  "elem_lines [] = []"
| "elem_lines [e] = e @ '' &\<newline>''"
| "elem_lines (e # es) = e @ '', &\<newline>'' @ elem_lines es"

text \<open>The declaration of the array of destination id \<open>v\<close>, with extent \<open>0:n-1\<close> and literals \<open>es\<close>.\<close>

definition decl_text :: "int \<Rightarrow> nat \<Rightarrow> pyval list \<Rightarrow> string" where
  "decl_text v n es =
     ''real(kind(0d0)) :: var'' @ str_int v @ ''(0:'' @ str_int (int n - 1) @ '') = [ &\<newline>''
       @ elem_lines (map fmt es) @ '']\<newline>''"

text \<open>
  The profiles the declaration pass extracts, in order, up to the first exception: for
  each destination id the case object after its load, its \<^verbatim>\<open>nx\<close> and its \<^verbatim>\<open>elems\<close>.
\<close>

fun extracted :: "('c, 'a) viz \<Rightarrow> int list \<Rightarrow> 'c \<Rightarrow> (int \<times> 'c \<times> nat \<times> pyval list) list \<times> error option" where
  "extracted ops [] c = ([], None)"
| "extracted ops (v # vs) c =
     (case profile ops v c of
        Inl e \<Rightarrow> ([], Some e)
      | Inr (c', n, es) \<Rightarrow>
          (case extracted ops vs c' of (ps, r) \<Rightarrow> ((v, c', n, es) # ps, r)))"

definition decl_of :: "int \<times> 'c \<times> nat \<times> pyval list \<Rightarrow> string" where
  "decl_of p = (case p of (v, c', n, es) \<Rightarrow> decl_text v n es)"

definition decl_file :: "(int \<times> 'c \<times> nat \<times> pyval list) list \<Rightarrow> string" where
  "decl_file ps = ''integer :: i_offset\<newline>'' @ concat (map decl_of ps)"

fun nx_after :: "nat option \<Rightarrow> (int \<times> 'c \<times> nat \<times> pyval list) list \<Rightarrow> nat option" where
  "nx_after d [] = d"
| "nx_after d (p # ps) = nx_after (Some (fst (snd (snd p)))) ps"

text \<open>The destination ids of the two passes: \<open>1..K\<close> and \<open>1..K-1\<close>, with \<open>K = 16\<close>.\<close>

definition dest_ids :: "int list" where
  "dest_ids = incrange 1 (num_eqns + num_dims - 1)"

definition branch_ids :: "int list" where
  "branch_ids = py_range 1 (num_eqns + num_dims - 1)"

text \<open>The value of \<^verbatim>\<open>nx\<close> when the branch pass starts: that of the last declaration.\<close>

definition branch_nx :: "('c, 'a) viz \<Rightarrow> 'c \<Rightarrow> nat" where
  "branch_nx ops c = fst (snd (snd (last (fst (extracted ops dest_ids c)))))"

definition branch_lines :: "nat \<Rightarrow> string list" where
  "branch_lines n = ''case (666)\<newline>'' # offset_line n # map (\<lambda>v. assign_line v n) branch_ids"

text \<open>
  The name under which a destination id is looked up, and the samples the case object
  holds for a field at a step (none when the lookup raises).
\<close>

definition key :: "int \<Rightarrow> string" where
  "key v = str_int (var_init v)"

definition samples :: "('c, 'a) viz \<Rightarrow> 'c \<Rightarrow> int \<Rightarrow> string \<Rightarrow> 'a list" where
  "samples ops c step name = (case field_at ops c step name of Inl e \<Rightarrow> [] | Inr xs \<Rightarrow> xs)"

text \<open>
  What the pass takes for destination id \<open>v\<close> from a case object \<open>c\<close> that has the
  field loaded: \<^verbatim>\<open>nx\<close> from snapshot 0, and as \<^verbatim>\<open>elems\<close> the samples of the probe
  snapshot, or \<^verbatim>\<open>nx\<close> zeros for id 3.
\<close>

definition nx_of :: "('c, 'a) viz \<Rightarrow> int \<Rightarrow> 'c \<Rightarrow> nat" where
  "nx_of ops v c = length (samples ops c 0 (key v))"

definition elems_of :: "('c, 'a) viz \<Rightarrow> int \<Rightarrow> 'c \<Rightarrow> pyval list" where
  "elems_of ops v c =
     (if v = 3 then replicate (nx_of ops v c) PyFloat0
      else map (\<lambda>x. PyStr (str_of ops x)) (samples ops c probe_index (key v)))"

definition entry_of :: "('c, 'a) viz \<Rightarrow> int \<Rightarrow> 'c \<Rightarrow> int \<times> 'c \<times> nat \<times> pyval list" where
  "entry_of ops v c = (v, c, nx_of ops v c, elems_of ops v c)"

text \<open>
  The case objects after the loads of the destination ids \<open>vs\<close>, one after the other,
  up to the first load that raises.
\<close>

fun loads :: "('c, 'a) viz \<Rightarrow> int list \<Rightarrow> 'c \<Rightarrow> 'c list" where
  "loads ops [] c = []"
| "loads ops (v # vs) c =
     (case load_variable ops (key v) (''prim.'' @ key v) c of
        Inl e \<Rightarrow> []
      | Inr c' \<Rightarrow> c' # loads ops vs c')"

text \<open>Whether the lookups behind \<open>nx_of\<close> and \<open>elems_of\<close> find the field.\<close>

definition found :: "('c, 'a) viz \<Rightarrow> int \<Rightarrow> 'c \<Rightarrow> bool" where
  "found ops v c \<longleftrightarrow>
     field_at ops c 0 (key v) = Inr (samples ops c 0 (key v))
     \<and> (v = 3 \<or> field_at ops c probe_index (key v) = Inr (samples ops c probe_index (key v)))"

section \<open>Datasets for the examples\<close>

text \<open>
  Modelled from the spec: the class \<^verbatim>\<open>mfc.viz.Case\<close>, whose source is not among the
  files, as far as the examples need it. The spec asks of it that \<^verbatim>\<open>load_variable\<close>
  prepares a field for access and that \<^verbatim>\<open>get_data\<close> gives the snapshots, each indexable
  by field id. Here a case object is its table of snapshots, held as association lists,
  and loading changes nothing. The samples are whole numbers, printed as Python prints
  such a float (\<^verbatim>\<open>5.0\<close>). The theorems below hold for every collaborator; this one
  serves the examples only.
\<close>

type_synonym table = "(int \<times> (string \<times> int list) list) list"

definition table_data :: "table \<Rightarrow> int \<rightharpoonup> (string \<rightharpoonup> int list)" where
  "table_data t = (\<lambda>step. map_option map_of (map_of t step))"

definition table_ops :: "(table, int) viz" where
  "table_ops = \<lparr>load_variable = (\<lambda>name kind c. Inr c), get_data = table_data,
                 str_of = (\<lambda>x. str_int x @ ''.0'')\<rparr>"


text \<open>The fields with the given source ids, each with the same samples.\<close>

definition fields :: "int list \<Rightarrow> int list \<Rightarrow> (string \<times> int list) list" where
  "fields ks xs = map (\<lambda>k. (str_int k, xs)) ks"

text \<open>
  The datasets of the examples, each with snapshot 0 and the probe snapshot: all fifteen
  fields of one length; snapshot 0 shorter than the probe snapshot; field 1 shorter than
  the others; field 2 absent; and snapshot 0 alone.
\<close>

definition even_data :: table where
  "even_data = [(0, fields [1..15] [1, 2]), (14694, fields [1..15] [5, 6])]"

definition uneven_data :: table where
  "uneven_data = [(0, fields [1..15] [1]), (14694, fields [1..15] [5, 6])]"

definition ragged_data :: table where
  "ragged_data = [(0, fields [1] [1] @ fields [2..15] [1, 2]),
                  (14694, fields [1] [5] @ fields [2..15] [5, 6])]"

definition short_data :: table where
  "short_data = [(0, fields [1] [1] @ fields [3..15] [1]),
                 (14694, fields [1] [5] @ fields [3..15] [5])]"


section \<open>The loops in closed form\<close>

lemma write_elems_lines:
  "i + length es = n \<Longrightarrow> write_elems n i es buf = buf @ elem_lines (map fmt es)"
proof (induction es arbitrary: i buf)
  case Nil
  then show ?case by simp
next
  case (Cons e es)
  show ?case
  proof (cases es)
    case Nil
    with Cons.prems show ?thesis by auto
  next
    case (Cons e' es')
    with Cons.prems have "int i \<noteq> int n - 1" by auto
    moreover have "Suc i + length es = n" using Cons.prems by simp
    ultimately show ?thesis using Cons.IH [of "Suc i"] Cons by simp
  qed
qed

lemma emit_decl_text: "emit_decl v n es buf = buf @ decl_text v n es"
  by (simp add: emit_decl_def decl_text_def write_elems_lines)

lemma def_loop_lines: "def_loop vs n buf = buf @ concat (map (\<lambda>v. assign_line v n) vs)"
  by (induction vs arbitrary: buf) auto

lemma nx_after_last: "ps \<noteq> [] \<Longrightarrow> nx_after d ps = Some (fst (snd (snd (last ps))))"
  by (induction ps arbitrary: d) auto

lemma decl_loop_extracted:
  "decl_loop ops vs s = (s', r) \<Longrightarrow>
     r = snd (extracted ops vs (case_obj s)) \<and>
     ftext s' = ftext s @ concat (map decl_of (fst (extracted ops vs (case_obj s)))) \<and>
     nx_var s' = nx_after (nx_var s) (fst (extracted ops vs (case_obj s)))"
proof (induction vs arbitrary: s)
  case Nil
  then show ?case by simp
next
  case (Cons v vs)
  show ?case
  proof (cases "profile ops v (case_obj s)")
    case (Inl e)
    with Cons.prems show ?thesis by (simp add: decl_body_def)
  next
    case (Inr t)
    obtain c' n es where t: "t = (c', n, es)" by (cases t) auto
    obtain ps r' where ex: "extracted ops vs c' = (ps, r')" by (cases "extracted ops vs c'") auto
    let ?s1 = "\<lparr>case_obj = c', nx_var = Some n, ftext = emit_decl v n es (ftext s)\<rparr>"
    from Cons.prems Inr t have "decl_loop ops vs ?s1 = (s', r)"
      by (simp add: decl_body_def)
    from Cons.IH [OF this] Inr t ex show ?thesis
      by (simp add: emit_decl_text decl_of_def)
  qed
qed

section \<open>The extracted profiles\<close>

lemma profile_entry:
  assumes "profile ops v c = Inr (c', n, es)"
  shows "(v, c', n, es) = entry_of ops v c'"
    and "load_variable ops (key v) (''prim.'' @ key v) c = Inr c'"
  using assms
  by (auto simp: profile_def entry_of_def nx_of_def elems_of_def samples_def key_def Let_def
           split: sum.splits if_splits)

lemma extracted_ids:
  "extracted ops vs c = (ps, r) \<Longrightarrow> map fst ps = take (length ps) vs"
proof (induction vs arbitrary: c ps)
  case Nil
  then show ?case by simp
next
  case (Cons v vs)
  then show ?case
    by (auto split: sum.splits prod.splits)
qed

lemma extracted_complete:
  "extracted ops vs c = (ps, None) \<Longrightarrow> length ps = length vs"
proof (induction vs arbitrary: c ps)
  case Nil
  then show ?case by simp
next
  case (Cons v vs)
  then show ?case
    by (auto split: sum.splits prod.splits)
qed

lemma extracted_partial:
  "extracted ops vs c = (ps, Some e) \<Longrightarrow> length ps < length vs"
proof (induction vs arbitrary: c ps)
  case Nil
  then show ?case by simp
next
  case (Cons v vs)
  then show ?case
    by (auto split: sum.splits prod.splits)
qed

section \<open>The script in closed form\<close>

lemma paths_differ: "decl_path \<noteq> def_path"
  by (simp add: decl_path_def def_path_def)

lemma dest_ids_eq: "dest_ids = [1, 2, 3, 4, 5, 6, 7, 8, 9, 10, 11, 12, 13, 14, 15, 16]"
  by code_simp


lemma main_extracted:
  "main a ops c fs =
     (case extracted ops dest_ids c of
        (ps, Some e) \<Rightarrow> (fs(decl_path \<mapsto> decl_file ps), Some e)
      | (ps, None) \<Rightarrow>
          (fs(decl_path \<mapsto> decl_file ps,
              def_path \<mapsto> concat (branch_lines (fst (snd (snd (last ps)))))), None))"
proof -
  obtain s r where l: "decl_loop ops dest_ids
      \<lparr>case_obj = c, nx_var = None, ftext = ''integer :: i_offset\<newline>''\<rparr> = (s, r)"
    by (cases "decl_loop ops dest_ids
      \<lparr>case_obj = c, nx_var = None, ftext = ''integer :: i_offset\<newline>''\<rparr>") auto
  obtain ps r' where ex: "extracted ops dest_ids c = (ps, r')"
    by (cases "extracted ops dest_ids c") auto
  from decl_loop_extracted [OF l] ex
  have r: "r' = r" and nx: "nx_var s = nx_after None ps" and ft: "ftext s = decl_file ps"
    by (simp_all add: decl_file_def)
  show ?thesis
  proof (cases r)
    case (Some e)
    with l r ex ft show ?thesis by (simp add: main_def dest_ids_def)
  next
    case None
    with r ex have "length ps = length dest_ids" by (simp add: extracted_complete)
    then have "ps \<noteq> []" by (auto simp: dest_ids_eq)
    with nx have "nx_var s = Some (fst (snd (snd (last ps))))" by (simp add: nx_after_last)
    with None l r ex ft show ?thesis
      by (simp add: main_def dest_ids_def Let_def branch_lines_def branch_ids_def def_loop_lines)
  qed
qed

lemma main_error: "snd (main a ops c fs) = snd (extracted ops dest_ids c)"
  by (simp add: main_extracted split: prod.splits option.splits)

lemma main_decl_file:
  "fst (main a ops c fs) decl_path = Some (decl_file (fst (extracted ops dest_ids c)))"
  by (simp add: main_extracted paths_differ split: prod.splits option.splits)

lemma main_def_file_ok:
  "snd (main a ops c fs) = None \<Longrightarrow>
     fst (main a ops c fs) def_path = Some (concat (branch_lines (branch_nx ops c)))"
  by (simp add: main_extracted branch_nx_def split: prod.splits option.splits)

lemma main_def_file_err:
  "snd (main a ops c fs) = Some e \<Longrightarrow> fst (main a ops c fs) def_path = fs def_path"
  by (simp add: main_extracted paths_differ [symmetric] split: prod.splits option.splits)

section \<open>The text of the ids and of the lines\<close>

lemma str_int_ids:
  "str_int 1 = ''1''" "str_int 2 = ''2''" "str_int 3 = ''3''" "str_int 4 = ''4''"
  "str_int 5 = ''5''" "str_int 6 = ''6''" "str_int 7 = ''7''" "str_int 8 = ''8''"
  "str_int 9 = ''9''" "str_int 10 = ''10''" "str_int 11 = ''11''" "str_int 12 = ''12''"
  "str_int 13 = ''13''" "str_int 14 = ''14''" "str_int 15 = ''15''" "str_int 16 = ''16''"
  by code_simp+




lemma even_data_runs: "snd (main \<lparr>scale = 1\<rparr> table_ops even_data Map.empty) = None"
  by code_simp


section \<open>The branch file\<close>



section \<open>Determinism\<close>

text \<open>
  C7. The outcome of a run and the two artifacts are functions of the case object alone:
  two runs on the same dataset, whatever the files held before and whatever the command
  line, end the same way and leave the same declarations file, and when they complete,
  the same branch file.
\<close>

theorem same_dataset_same_artifacts:
  "snd (main a1 ops c fs1) = snd (main a2 ops c fs2)
   \<and> fst (main a1 ops c fs1) decl_path = fst (main a2 ops c fs2) decl_path
   \<and> (snd (main a1 ops c fs1) = None \<longrightarrow>
        fst (main a1 ops c fs1) def_path = fst (main a2 ops c fs2) def_path)"
  by (simp add: main_error main_decl_file main_def_file_ok)

text \<open>C7, on a completed run: the branch file replaces whatever was there before.\<close>

theorem same_dataset_same_artifacts_witness:
  "snd (main \<lparr>scale = 1\<rparr> table_ops even_data Map.empty) = None
   \<and> fst (main \<lparr>scale = 1\<rparr> table_ops even_data Map.empty) def_path =
       fst (main \<lparr>scale = 2\<rparr> table_ops even_data [def_path \<mapsto> ''stale'']) def_path"
  using same_dataset_same_artifacts
          [of "\<lparr>scale = 1\<rparr>" table_ops even_data Map.empty "\<lparr>scale = 2\<rparr>" "[def_path \<mapsto> ''stale'']"]
        even_data_runs
  by simp

section \<open>The command line\<close>

text \<open>
  C10. The parsed \<^verbatim>\<open>--scale\<close> is never used: two runs that differ only in the command
  line give the same files and the same outcome.
\<close>

theorem scale_unused: "main a1 ops c fs = main a2 ops c fs"
  by (simp add: main_def)

section \<open>The clamped lookup\<close>




section \<open>The offset\<close>








section \<open>What one iteration reads\<close>

lemma profile_reads:
  assumes "profile ops v c = Inr (c', n, es)"
  shows "found ops v c'"
  using assms
  by (auto simp: found_def profile_def samples_def key_def Let_def split: sum.splits if_splits)

lemma profile_error:
  assumes "profile ops v c = Inl e"
  shows "load_variable ops (key v) (''prim.'' @ key v) c = Inl e
       \<or> (\<exists>c'. load_variable ops (key v) (''prim.'' @ key v) c = Inr c'
             \<and> (field_at ops c' 0 (key v) = Inl e
                 \<or> field_at ops c' probe_index (key v) = Inl e))"
  using assms
  by (auto simp: profile_def key_def Let_def split: sum.splits if_splits)

lemma extracted_loads:
  "extracted ops vs c = (ps, None) \<Longrightarrow>
     length (loads ops vs c) = length vs
     \<and> ps = map (\<lambda>(v, c'). entry_of ops v c') (zip vs (loads ops vs c))
     \<and> list_all (\<lambda>(v, c'). found ops v c') (zip vs (loads ops vs c))"
proof (induction vs arbitrary: c ps)
  case Nil
  then show ?case by simp
next
  case (Cons v vs)
  show ?case
  proof (cases "profile ops v c")
    case (Inl e)
    with Cons.prems show ?thesis by simp
  next
    case (Inr t)
    obtain c' n es where t: "t = (c', n, es)" by (cases t) auto
    obtain qs r' where ex: "extracted ops vs c' = (qs, r')" by (cases "extracted ops vs c'") auto
    from Cons.prems Inr t ex have ps: "ps = (v, c', n, es) # qs" and r': "r' = None"
      by simp_all
    from Inr t have p: "profile ops v c = Inr (c', n, es)" by simp
    from Cons.IH [of c' qs] ex r' profile_entry [OF p] profile_reads [OF p] ps
    show ?thesis by simp
  qed
qed

lemma extracted_error:
  "extracted ops vs c = (ps, Some e) \<Longrightarrow>
     profile ops (vs ! length ps) (last (c # map (\<lambda>p. fst (snd p)) ps)) = Inl e"
proof (induction vs arbitrary: c ps)
  case Nil
  then show ?case by simp
next
  case (Cons v vs)
  show ?case
  proof (cases "profile ops v c")
    case (Inl e')
    with Cons.prems show ?thesis by simp
  next
    case (Inr t)
    obtain c' n es where t: "t = (c', n, es)" by (cases t) auto
    obtain qs r' where ex: "extracted ops vs c' = (qs, r')" by (cases "extracted ops vs c'") auto
    from Cons.prems Inr t ex have ps: "ps = (v, c', n, es) # qs" and r': "r' = Some e"
      by simp_all
    from Cons.IH [of c' qs] ex r' have "profile ops (vs ! length qs)
        (last (c' # map (\<lambda>p. fst (snd p)) qs)) = Inl e"
      by simp
    with ps show ?thesis by simp
  qed
qed

section \<open>A completed run\<close>

lemma decl_of_entry: "decl_of (entry_of ops v c) = decl_text v (nx_of ops v c) (elems_of ops v c)"
  by (simp add: decl_of_def entry_of_def)

lemma complete_run:
  assumes "snd (main a ops c fs) = None"
  shows "length (loads ops dest_ids c) = 16"
    and "fst (extracted ops dest_ids c)
           = map (\<lambda>(v, c'). entry_of ops v c') (zip dest_ids (loads ops dest_ids c))"
    and "list_all (\<lambda>(v, c'). found ops v c') (zip dest_ids (loads ops dest_ids c))"
proof -
  obtain ps r where ex: "extracted ops dest_ids c = (ps, r)"
    by (cases "extracted ops dest_ids c") auto
  with assms have "r = None" by (simp add: main_error)
  with ex have ex': "extracted ops dest_ids c = (ps, None)" by simp
  from extracted_loads [OF ex'] ex
  show "length (loads ops dest_ids c) = 16"
    and "fst (extracted ops dest_ids c)
           = map (\<lambda>(v, c'). entry_of ops v c') (zip dest_ids (loads ops dest_ids c))"
    and "list_all (\<lambda>(v, c'). found ops v c') (zip dest_ids (loads ops dest_ids c))"
    by (simp_all add: dest_ids_eq)
qed

lemma complete_decl_file:
  assumes "snd (main a ops c fs) = None"
  shows "fst (main a ops c fs) decl_path =
           Some (''integer :: i_offset\<newline>''
                 @ concat (map (\<lambda>(v, c'). decl_text v (nx_of ops v c') (elems_of ops v c'))
                             (zip dest_ids (loads ops dest_ids c))))"
proof -
  have "decl_of \<circ> (\<lambda>(v, c'). entry_of ops v c')
          = (\<lambda>(v, c'). decl_text v (nx_of ops v c') (elems_of ops v c'))"
    by (rule ext) (simp add: decl_of_entry split_def)
  then have "map decl_of (map (\<lambda>(v, c'). entry_of ops v c') (zip dest_ids (loads ops dest_ids c)))
          = map (\<lambda>(v, c'). decl_text v (nx_of ops v c') (elems_of ops v c'))
              (zip dest_ids (loads ops dest_ids c))"
    by (simp only: map_map)
  with complete_run(2) [OF assms] show ?thesis
    by (simp only: main_decl_file decl_file_def)
qed

lemma complete_branch_nx:
  assumes "snd (main a ops c fs) = None"
  shows "branch_nx ops c = nx_of ops 16 (last (loads ops dest_ids c))"
proof -
  let ?cs = "loads ops dest_ids c"
  from complete_run(1) [OF assms] have len: "length ?cs = length dest_ids"
    by (simp add: dest_ids_eq)
  then have ne: "zip dest_ids ?cs \<noteq> []" by (auto simp: dest_ids_eq)
  from len have "last (zip dest_ids ?cs) = (last dest_ids, last ?cs)"
    using ne by (simp add: last_zip dest_ids_eq)
  then have "last (zip dest_ids ?cs) = (16, last ?cs)" by (simp add: dest_ids_eq)
  with ne complete_run(2) [OF assms] show ?thesis
    by (simp add: branch_nx_def last_map entry_of_def)
qed

section \<open>Extent and literals of one declaration\<close>

text \<open>
  C9. An iteration for a destination id \<open>v\<close> other than 3 that does not raise loads the
  translated source field, declares the array with the extent \<open>0:n-1\<close> where \<open>n\<close> is
  the length of that field's array at snapshot 0, and writes as literals the samples of
  the field at snapshot 14694. The literals are as many as the declared size exactly when
  the two arrays have the same length.
\<close>

theorem extent_and_literals:
  assumes "decl_body ops v s = Inr s'" and "v \<noteq> 3"
  shows "load_variable ops (key v) (''prim.'' @ key v) (case_obj s) = Inr (case_obj s')
       \<and> field_at ops (case_obj s') 0 (key v) = Inr (samples ops (case_obj s') 0 (key v))
       \<and> field_at ops (case_obj s') probe_index (key v)
           = Inr (samples ops (case_obj s') probe_index (key v))
       \<and> probe_index = 14694
       \<and> nx_var s' = Some (length (samples ops (case_obj s') 0 (key v)))
       \<and> ftext s' = ftext s @ decl_text v (length (samples ops (case_obj s') 0 (key v)))
                        (map (\<lambda>x. PyStr (str_of ops x)) (samples ops (case_obj s') probe_index (key v)))
       \<and> (length (map (\<lambda>x. PyStr (str_of ops x)) (samples ops (case_obj s') probe_index (key v)))
            = length (samples ops (case_obj s') 0 (key v))
          \<longleftrightarrow> length (samples ops (case_obj s') probe_index (key v))
            = length (samples ops (case_obj s') 0 (key v)))"
proof -
  from assms(1) obtain c' n es where p: "profile ops v (case_obj s) = Inr (c', n, es)"
    and s': "s' = \<lparr>case_obj = c', nx_var = Some n, ftext = emit_decl v n es (ftext s)\<rparr>"
    by (auto simp: decl_body_def split: sum.splits)
  from profile_entry [OF p] profile_reads [OF p] assms(2) s' show ?thesis
    by (simp add: entry_of_def nx_of_def elems_of_def found_def emit_decl_text probe_index_def)
qed

text \<open>
  C9, on the dataset with one sample at snapshot 0 and two at the probe snapshot: the
  array of id 1 is declared with extent \<open>0:0\<close> and holds two literals.
\<close>

theorem extent_and_literals_witness:
  "decl_body table_ops 1 \<lparr>case_obj = uneven_data, nx_var = None, ftext = ''''\<rparr>
     = Inr \<lparr>case_obj = uneven_data, nx_var = Some 1,
            ftext = ''real(kind(0d0)) :: var1(0:0) = [ &\<newline>5.0, &\<newline>6.0 &\<newline>]\<newline>''\<rparr>
   \<and> (1::int) \<noteq> 3
   \<and> samples table_ops uneven_data 0 (key 1) = [1]
   \<and> samples table_ops uneven_data probe_index (key 1) = [5, 6]
   \<and> ''real(kind(0d0)) :: var1(0:0) = [ &\<newline>5.0, &\<newline>6.0 &\<newline>]\<newline>''
       = decl_text 1 1 [PyStr (str_of table_ops 5), PyStr (str_of table_ops 6)]"
proof -
  have h: "decl_body table_ops 1 \<lparr>case_obj = uneven_data, nx_var = None, ftext = ''''\<rparr>
     = Inr \<lparr>case_obj = uneven_data, nx_var = Some 1,
            ftext = ''real(kind(0d0)) :: var1(0:0) = [ &\<newline>5.0, &\<newline>6.0 &\<newline>]\<newline>''\<rparr>"
    by code_simp
  have s0: "samples table_ops uneven_data 0 (key 1) = [1]"
    and s1: "samples table_ops uneven_data probe_index (key 1) = [5, 6]"
    by code_simp+
  from extent_and_literals [OF h] s0 s1 h show ?thesis
    by simp
qed

section \<open>The translation of the ids\<close>




section \<open>The declarations file\<close>




section \<open>The values of nx\<close>

text \<open>
  C6, as stated, fails when the fields differ in length: with one sample for source
  field 1 and two for the others, the array of id 1 is declared with extent \<open>0:0\<close>, the
  others with \<open>0:1\<close>, and the branch file uses \<^verbatim>\<open>nx = 2\<close>, not the length of field 1.
\<close>

theorem single_nx_counterexample:
  "snd (main \<lparr>scale = 1\<rparr> table_ops ragged_data Map.empty) = None
   \<and> fst (main \<lparr>scale = 1\<rparr> table_ops ragged_data Map.empty) decl_path =
       Some (''integer :: i_offset\<newline>'' @
        ''real(kind(0d0)) :: var1(0:0) = [ &\<newline>5.0 &\<newline>]\<newline>'' @
        ''real(kind(0d0)) :: var2(0:1) = [ &\<newline>5.0, &\<newline>6.0 &\<newline>]\<newline>'' @
        ''real(kind(0d0)) :: var3(0:1) = [ &\<newline>0.0, &\<newline>0.0 &\<newline>]\<newline>'' @
        ''real(kind(0d0)) :: var4(0:1) = [ &\<newline>5.0, &\<newline>6.0 &\<newline>]\<newline>'' @
        ''real(kind(0d0)) :: var5(0:1) = [ &\<newline>5.0, &\<newline>6.0 &\<newline>]\<newline>'' @
        ''real(kind(0d0)) :: var6(0:1) = [ &\<newline>5.0, &\<newline>6.0 &\<newline>]\<newline>'' @
        ''real(kind(0d0)) :: var7(0:1) = [ &\<newline>5.0, &\<newline>6.0 &\<newline>]\<newline>'' @
        ''real(kind(0d0)) :: var8(0:1) = [ &\<newline>5.0, &\<newline>6.0 &\<newline>]\<newline>'' @
        ''real(kind(0d0)) :: var9(0:1) = [ &\<newline>5.0, &\<newline>6.0 &\<newline>]\<newline>'' @
        ''real(kind(0d0)) :: var10(0:1) = [ &\<newline>5.0, &\<newline>6.0 &\<newline>]\<newline>'' @
        ''real(kind(0d0)) :: var11(0:1) = [ &\<newline>5.0, &\<newline>6.0 &\<newline>]\<newline>'' @
        ''real(kind(0d0)) :: var12(0:1) = [ &\<newline>5.0, &\<newline>6.0 &\<newline>]\<newline>'' @
        ''real(kind(0d0)) :: var13(0:1) = [ &\<newline>5.0, &\<newline>6.0 &\<newline>]\<newline>'' @
        ''real(kind(0d0)) :: var14(0:1) = [ &\<newline>5.0, &\<newline>6.0 &\<newline>]\<newline>'' @
        ''real(kind(0d0)) :: var15(0:1) = [ &\<newline>5.0, &\<newline>6.0 &\<newline>]\<newline>'' @
        ''real(kind(0d0)) :: var16(0:1) = [ &\<newline>5.0, &\<newline>6.0 &\<newline>]\<newline>'')
   \<and> fst (main \<lparr>scale = 1\<rparr> table_ops ragged_data Map.empty) def_path =
       Some (''case (666)\<newline>'' @
        ''    i_offset = int(x_cc(0)/0.12d0*1)\<newline>'' @
        ''    q_prim_vf(1)%sf(i, j, 0) = var1(min(i_offset+i, 1))\<newline>'' @
        ''    q_prim_vf(2)%sf(i, j, 0) = var2(min(i_offset+i, 1))\<newline>'' @
        ''    q_prim_vf(3)%sf(i, j, 0) = var3(min(i_offset+i, 1))\<newline>'' @
        ''    q_prim_vf(4)%sf(i, j, 0) = var4(min(i_offset+i, 1))\<newline>'' @
        ''    q_prim_vf(5)%sf(i, j, 0) = var5(min(i_offset+i, 1))\<newline>'' @
        ''    q_prim_vf(6)%sf(i, j, 0) = var6(min(i_offset+i, 1))\<newline>'' @
        ''    q_prim_vf(7)%sf(i, j, 0) = var7(min(i_offset+i, 1))\<newline>'' @
        ''    q_prim_vf(8)%sf(i, j, 0) = var8(min(i_offset+i, 1))\<newline>'' @
        ''    q_prim_vf(9)%sf(i, j, 0) = var9(min(i_offset+i, 1))\<newline>'' @
        ''    q_prim_vf(10)%sf(i, j, 0) = var10(min(i_offset+i, 1))\<newline>'' @
        ''    q_prim_vf(11)%sf(i, j, 0) = var11(min(i_offset+i, 1))\<newline>'' @
        ''    q_prim_vf(12)%sf(i, j, 0) = var12(min(i_offset+i, 1))\<newline>'' @
        ''    q_prim_vf(13)%sf(i, j, 0) = var13(min(i_offset+i, 1))\<newline>'' @
        ''    q_prim_vf(14)%sf(i, j, 0) = var14(min(i_offset+i, 1))\<newline>'' @
        ''    q_prim_vf(15)%sf(i, j, 0) = var15(min(i_offset+i, 1))\<newline>'')"
  by code_simp

text \<open>
  C6, amended. \<^verbatim>\<open>nx\<close> is assigned anew in every iteration of the declaration pass, as
  the length of that id's source field at snapshot 0; each declaration uses its own
  value, and the branch file uses the value of the last iteration, that of destination
  id 16 and source field 15. When all these lengths are one number, that number, which
  is then the length for source id 1, is used in every declaration and in the branch
  file.
\<close>

theorem nx_per_declaration:
  assumes "snd (main a ops c fs) = None"
  shows "fst (main a ops c fs) decl_path =
           Some (''integer :: i_offset\<newline>''
                 @ concat (map (\<lambda>(v, c'). decl_text v (nx_of ops v c') (elems_of ops v c'))
                             (zip dest_ids (loads ops dest_ids c))))
       \<and> fst (main a ops c fs) def_path =
           Some (concat (branch_lines (nx_of ops 16 (last (loads ops dest_ids c)))))
       \<and> nx_of ops 16 (last (loads ops dest_ids c))
           = length (samples ops (last (loads ops dest_ids c)) 0 ''15'')
       \<and> nx_of ops 1 (hd (loads ops dest_ids c))
           = length (samples ops (hd (loads ops dest_ids c)) 0 ''1'')
       \<and> (list_all (\<lambda>(v, c'). nx_of ops v c' = m) (zip dest_ids (loads ops dest_ids c)) \<longrightarrow>
           fst (main a ops c fs) decl_path =
             Some (''integer :: i_offset\<newline>''
                   @ concat (map (\<lambda>(v, c'). decl_text v m (elems_of ops v c'))
                               (zip dest_ids (loads ops dest_ids c))))
           \<and> fst (main a ops c fs) def_path = Some (concat (branch_lines m))
           \<and> m = length (samples ops (hd (loads ops dest_ids c)) 0 ''1''))"
proof -
  let ?cs = "loads ops dest_ids c"
  let ?zs = "zip dest_ids ?cs"
  note A = complete_decl_file [OF assms]
  have B: "fst (main a ops c fs) def_path = Some (concat (branch_lines (nx_of ops 16 (last ?cs))))"
    using main_def_file_ok [OF assms] complete_branch_nx [OF assms] by simp
  have k16: "nx_of ops 16 (last ?cs) = length (samples ops (last ?cs) 0 ''15'')"
    and k1: "nx_of ops 1 (hd ?cs) = length (samples ops (hd ?cs) 0 ''1'')"
    by (simp_all add: nx_of_def key_def var_init_def str_int_ids)
  from complete_run(1) [OF assms]
  obtain c1 cs where cs: "?cs = c1 # cs" and lcs: "length cs = 15"
    by (cases ?cs) auto
  have ne: "?zs \<noteq> []" using cs by (simp add: dest_ids_eq)
  have "last ?zs = (last dest_ids, last ?cs)"
    using complete_run(1) [OF assms] ne by (simp add: last_zip dest_ids_eq)
  then have lastz: "last ?zs = (16, last ?cs)" by (simp add: dest_ids_eq)
  have hdz: "hd ?zs = (1, hd ?cs)" using cs by (simp add: dest_ids_eq)
  have U: "fst (main a ops c fs) decl_path =
             Some (''integer :: i_offset\<newline>''
                   @ concat (map (\<lambda>(v, c'). decl_text v m (elems_of ops v c')) ?zs))
           \<and> fst (main a ops c fs) def_path = Some (concat (branch_lines m))
           \<and> m = length (samples ops (hd ?cs) 0 ''1'')"
    if all: "list_all (\<lambda>(v, c'). nx_of ops v c' = m) ?zs"
  proof -
    from all have each: "\<And>v c'. (v, c') \<in> set ?zs \<Longrightarrow> nx_of ops v c' = m"
      by (auto simp: list_all_iff)
    have "map (\<lambda>(v, c'). decl_text v (nx_of ops v c') (elems_of ops v c')) ?zs
            = map (\<lambda>(v, c'). decl_text v m (elems_of ops v c')) ?zs"
      by (rule map_cong) (auto simp: each)
    with A have a: "fst (main a ops c fs) decl_path =
             Some (''integer :: i_offset\<newline>''
                   @ concat (map (\<lambda>(v, c'). decl_text v m (elems_of ops v c')) ?zs))"
      by simp
    from ne have "last ?zs \<in> set ?zs" by (rule last_in_set)
    with lastz each have "nx_of ops 16 (last ?cs) = m" by simp
    with B have b: "fst (main a ops c fs) def_path = Some (concat (branch_lines m))" by simp
    from ne have "hd ?zs \<in> set ?zs" by (rule hd_in_set)
    with hdz each have "nx_of ops 1 (hd ?cs) = m" by simp
    with k1 have "m = length (samples ops (hd ?cs) 0 ''1'')" by simp
    with a b show ?thesis by blast
  qed
  from A B k16 k1 U show ?thesis by blast
qed

text \<open>C6, amended, on the dataset whose fields all have two samples: \<^verbatim>\<open>nx\<close> is 2 throughout.\<close>

theorem nx_per_declaration_witness:
  "snd (main \<lparr>scale = 1\<rparr> table_ops even_data Map.empty) = None
   \<and> list_all (\<lambda>(v, c'). nx_of table_ops v c' = 2) (zip dest_ids (loads table_ops dest_ids even_data))
   \<and> fst (main \<lparr>scale = 1\<rparr> table_ops even_data Map.empty) def_path = Some (concat (branch_lines 2))
   \<and> length (samples table_ops (hd (loads table_ops dest_ids even_data)) 0 ''1'') = 2"
proof -
  note h = even_data_runs
  have u: "list_all (\<lambda>(v, c'). nx_of table_ops v c' = 2)
             (zip dest_ids (loads table_ops dest_ids even_data))"
    by code_simp
  from nx_per_declaration [OF h, of 2] u
  have "fst (main \<lparr>scale = 1\<rparr> table_ops even_data Map.empty) def_path
          = Some (concat (branch_lines 2))
        \<and> 2 = length (samples table_ops (hd (loads table_ops dest_ids even_data)) 0 ''1'')"
    by blast
  with h u show ?thesis by simp
qed

section \<open>Failures\<close>

text \<open>
  C8, as stated, fails twice. A dataset whose fields differ in length is accepted: the
  run completes. A dataset without source field 2 ends the run at destination id 2, after
  the declarations file has been created and the header and the array of id 1 written.
\<close>

theorem fail_fast_counterexample:
  "snd (main \<lparr>scale = 1\<rparr> table_ops ragged_data Map.empty) = None
   \<and> snd (main \<lparr>scale = 1\<rparr> table_ops short_data Map.empty) = Some (MissingField 0 ''2'')
   \<and> fst (main \<lparr>scale = 1\<rparr> table_ops short_data Map.empty) decl_path =
       Some (''integer :: i_offset\<newline>'' @
        ''real(kind(0d0)) :: var1(0:0) = [ &\<newline>5.0 &\<newline>]\<newline>'')"
  by code_simp

text \<open>
  C8, amended. A run ends with an error only when a load or a lookup of the collaborator
  raises; the lengths are not compared. The error is the one of the first destination id
  whose iteration raises. The declarations file then holds the header and the
  declarations of the ids before it, and the branch file is not touched.
\<close>

theorem failure_leaves_partial_file:
  assumes "snd (main a ops c fs) = Some e"
  shows "length (fst (extracted ops dest_ids c)) < 16
       \<and> map fst (fst (extracted ops dest_ids c))
           = take (length (fst (extracted ops dest_ids c))) dest_ids
       \<and> fst (main a ops c fs) decl_path = Some (decl_file (fst (extracted ops dest_ids c)))
       \<and> fst (main a ops c fs) def_path = fs def_path
       \<and> profile ops (dest_ids ! length (fst (extracted ops dest_ids c)))
           (last (c # map (\<lambda>p. fst (snd p)) (fst (extracted ops dest_ids c)))) = Inl e
       \<and> ((\<exists>name kind c0. load_variable ops name kind c0 = Inl e)
           \<or> (\<exists>c0 step name. field_at ops c0 step name = Inl e))"
proof -
  obtain ps r where ex: "extracted ops dest_ids c = (ps, r)"
    by (cases "extracted ops dest_ids c") auto
  with assms have r: "r = Some e" by (simp add: main_error)
  from ex r have "length ps < length dest_ids" by (simp add: extracted_partial)
  then have len: "length ps < 16" by (simp add: dest_ids_eq)
  from ex r have ex': "extracted ops dest_ids c = (ps, Some e)" by simp
  have p: "profile ops (dest_ids ! length ps) (last (c # map (\<lambda>p. fst (snd p)) ps)) = Inl e"
    by (rule extracted_error [OF ex'])
  from profile_error [OF p]
  have "(\<exists>name kind c0. load_variable ops name kind c0 = Inl e)
           \<or> (\<exists>c0 step name. field_at ops c0 step name = Inl e)"
    by blast
  with len p extracted_ids [OF ex] ex main_decl_file [of a ops c fs] main_def_file_err [OF assms]
  show ?thesis by (simp del: last.simps)
qed

text \<open>
  C8, amended, on the dataset without source field 2: the run ends at id 2, one
  declaration is in the file, and the earlier branch file is still there.
\<close>

theorem failure_leaves_partial_file_witness:
  "snd (main \<lparr>scale = 1\<rparr> table_ops short_data [def_path \<mapsto> ''stale'']) = Some (MissingField 0 ''2'')
   \<and> length (fst (extracted table_ops dest_ids short_data)) = 1
   \<and> fst (main \<lparr>scale = 1\<rparr> table_ops short_data [def_path \<mapsto> ''stale'']) decl_path
       = Some (decl_file (fst (extracted table_ops dest_ids short_data)))
   \<and> fst (main \<lparr>scale = 1\<rparr> table_ops short_data [def_path \<mapsto> ''stale'']) def_path = Some ''stale''
   \<and> profile table_ops 2 short_data = Inl (MissingField 0 ''2'')"
proof -
  have h: "snd (main \<lparr>scale = 1\<rparr> table_ops short_data [def_path \<mapsto> ''stale''])
             = Some (MissingField 0 ''2'')"
    by code_simp
  have l: "length (fst (extracted table_ops dest_ids short_data)) = 1"
    and p: "profile table_ops 2 short_data = Inl (MissingField 0 ''2'')"
    by code_simp+
  from failure_leaves_partial_file [OF h] h l p show ?thesis by simp
qed

end
